theory Spec2Isabelle
  imports Complex_Main "HOL-Library.Word"
begin

section \<open>JavaScript strings and numbers\<close>

text \<open>
  A JavaScript string is a sequence of UTF-16 code units. The regular expression
  \<^verbatim>\<open>/./g\<close> of \<^verbatim>\<open>stripHash\<close> works on code units, so strings are lists of 16-bit words.
  \<open>u16\<close> writes an ASCII literal of the source as code units.
\<close>

type_synonym jsstring = "16 word list"

definition u16 :: "string \<Rightarrow> jsstring" where
  "u16 s = map of_char s"

subsection \<open>Double-precision arithmetic\<close>

text \<open>
  \<^verbatim>\<open>delta / originalSize\<close> and \<^verbatim>\<open>* 100\<close> are IEEE 754 binary64 operations: the exact
  result rounded to 53 significant bits, ties to even. A finite double is modelled by the
  rational it denotes. The exponent range is not modelled: for integer operands below
  \<open>2^53\<close> in magnitude neither operation overflows or reaches the subnormal range.
\<close>

function bitlength :: "int \<Rightarrow> int" where
  "bitlength n = (if n \<le> 0 then 0 else bitlength (n div 2) + 1)"
  by pat_completeness auto
termination
  by (relation "measure nat") auto

declare bitlength.simps [simp del]

definition pow2 :: "int \<Rightarrow> rat" where
  "pow2 e = (if 0 \<le> e then 2 ^ nat e else 1 / 2 ^ nat (- e))"

definition ilog2 :: "rat \<Rightarrow> int" where
  \<comment> \<open>\<open>\<lfloor>log\<^sub>2 x\<rfloor>\<close> of a positive rational, from the bit lengths of numerator and denominator\<close>
  "ilog2 x =
     (let (p, q) = quotient_of x;
          k = bitlength p - bitlength q
      in if pow2 k \<le> x then k else k - 1)"

definition round_ties_even :: "rat \<Rightarrow> int" where
  "round_ties_even x =
     (let f = \<lfloor>x\<rfloor>; r = x - of_int f
      in if r < 1 / 2 then f else if 1 / 2 < r then f + 1 else if even f then f else f + 1)"

definition fl :: "rat \<Rightarrow> rat" where
  "fl x =
     (if x = 0 then 0
      else let a = \<bar>x\<bar>; e = ilog2 a - 52; m = round_ties_even (a / pow2 e)
           in sgn x * of_int m * pow2 e)"

definition ddiv :: "rat \<Rightarrow> rat \<Rightarrow> rat" where
  "ddiv a b = fl (a / b)"

definition dmul :: "rat \<Rightarrow> rat \<Rightarrow> rat" where
  "dmul a b = fl (a * b)"

subsection \<open>Number to string\<close>

text \<open>The decimal digits of a non-negative integer.\<close>

function digits :: "int \<Rightarrow> jsstring" where
  "digits n = (if n < 10 then [of_int (48 + n)] else digits (n div 10) @ [of_int (48 + n mod 10)])"
  by pat_completeness auto
termination
  by (relation "measure nat") auto

declare digits.simps [simp del]

text \<open>
  Number-to-string conversion of a positive integer-valued Number \<open>v\<close> with \<open>n\<close> decimal
  digits, \<open>n \<le> 21\<close>: JavaScript prints the \<open>k\<close> digits of an integer \<open>s\<close> followed by
  \<open>n - k\<close> zeros, where \<open>s * 10 ^ (n - k)\<close> is a number that rounds to the double \<open>v\<close> and
  \<open>k\<close> is as small as possible; of two such \<open>s\<close> the one nearer to \<open>v\<close>, and the even one
  if both are as near (the choice the language standard recommends and Node makes). \<open>shortest v j\<close> looks for \<open>s\<close> with \<open>j\<close> zeros, then with fewer. Below
  \<open>2^53\<close> every integer prints with all its digits; above, the last digits may differ
  from those of \<open>v\<close>.
\<close>

fun shortest :: "int \<Rightarrow> nat \<Rightarrow> int \<times> nat" where
  "shortest v 0 = (v, 0)"
| "shortest v (Suc j) =
     (let p = 10 ^ Suc j;
          lo = v div p;
          hi = lo + 1;
          ok_lo = (fl (of_int (lo * p)) = of_int v);
          ok_hi = (hi < 10 ^ (length (digits v) - Suc j) \<and> fl (of_int (hi * p)) = of_int v)
      in if ok_lo \<and> ok_hi
         then (if v - lo * p < hi * p - v then (lo, Suc j)
               else if hi * p - v < v - lo * p then (hi, Suc j)
               else if even lo then (lo, Suc j) else (hi, Suc j))
         else if ok_lo then (lo, Suc j)
         else if ok_hi then (hi, Suc j)
         else shortest v j)"

text \<open>
  \<^verbatim>\<open>Number::toString\<close> on an integer-valued Number below \<open>10^21\<close> in magnitude, where
  JavaScript does not yet switch to exponent notation; \<^verbatim>\<open>-0\<close> prints as \<^verbatim>\<open>0\<close>. The
  percentage of two sizes below \<open>2^53\<close> in magnitude stays below \<open>10^18\<close>.
\<close>

definition positive_to_string :: "int \<Rightarrow> jsstring" where
  "positive_to_string v =
     (let (s, zeros) = shortest v (length (digits v) - 1)
      in digits s @ replicate zeros 0x30)"

definition number_to_string :: "int \<Rightarrow> jsstring" where
  "number_to_string i =
     (if i < 0 then u16 ''-'' @ positive_to_string (- i) else positive_to_string i)"

text \<open>
  \<^verbatim>\<open>Math.round\<close>: the integer closest to the argument; of two equally close integers
  the one nearer to \<open>+\<infinity>\<close>. It is exact on doubles.
\<close>

definition Math_round :: "rat \<Rightarrow> int" where
  "Math_round x = \<lfloor>x + 1 / 2\<rfloor>"

section \<open>Delta classifier\<close>

text \<open>
  \<^verbatim>\<open>Math.round((delta / originalSize) * 100)\<close>, written twice in the source
  (\<^verbatim>\<open>getDeltaText\<close> and \<^verbatim>\<open>iconForDifference\<close>). Both callers reach it with
  \<open>originalSize \<noteq> 0\<close> only.
\<close>

definition raw_percentage :: "int \<Rightarrow> int \<Rightarrow> rat" where
  "raw_percentage delta originalSize = dmul (ddiv (of_int delta) (of_int originalSize)) 100"

definition percentage :: "int \<Rightarrow> int \<Rightarrow> int" where
  "percentage delta originalSize = Math_round (raw_percentage delta originalSize)"

text \<open>
  \<^verbatim>\<open>prettyBytes\<close> comes from the \<^verbatim>\<open>pretty-bytes\<close> package, which is not part of the
  repository: the formatter is the parameter \<open>pb\<close> of everything that prints a size.
\<close>

definition getDeltaText :: "(int \<Rightarrow> jsstring) \<Rightarrow> int \<Rightarrow> int \<Rightarrow> jsstring" where
  "getDeltaText pb delta originalSize =
     (let deltaText = (if 0 < delta then u16 ''+'' else []) @ pb delta
      in if \<bar>delta\<bar> = 0 then deltaText
         else if originalSize = 0 then deltaText @ u16 '' (new file)''
         else if originalSize = - delta then deltaText @ u16 '' (removed)''
         else let p = percentage delta originalSize
              in deltaText @ u16 '' ('' @ (if 0 < p then u16 ''+'' else []) @ number_to_string p @ u16 ''%)'')"

definition icon_new :: jsstring where "icon_new = [0xD83C, 0xDD95]"
definition icon_sos :: jsstring where "icon_sos = [0xD83C, 0xDD98]"
definition icon_siren :: jsstring where "icon_siren = [0xD83D, 0xDEA8]"
definition icon_warning :: jsstring where "icon_warning = [0x26A0, 0xFE0F]"
definition icon_magnifier :: jsstring where "icon_magnifier = [0xD83D, 0xDD0D]"
definition icon_trophy :: jsstring where "icon_trophy = [0xD83C, 0xDFC6]"
definition icon_party :: jsstring where "icon_party = [0xD83C, 0xDF89]"
definition icon_clap :: jsstring where "icon_clap = [0xD83D, 0xDC4F]"
definition icon_check :: jsstring where "icon_check = [0x2705]"

definition iconForDifference :: "int \<Rightarrow> int \<Rightarrow> jsstring" where
  "iconForDifference delta originalSize =
     (if originalSize = 0 then icon_new
      else let p = percentage delta originalSize
           in if 50 \<le> p then icon_sos
              else if 20 \<le> p then icon_siren
              else if 10 \<le> p then icon_warning
              else if 5 \<le> p then icon_magnifier
              else if p \<le> - 50 then icon_trophy
              else if p \<le> - 20 then icon_party
              else if p \<le> - 10 then icon_clap
              else if p \<le> - 5 then icon_check
              else [])"


section \<open>Table renderer\<close>

definition nl :: jsstring where "nl = [0x0A]"
definition backtick :: jsstring where "backtick = [0x60]"
definition icon_info :: jsstring where "icon_info = [0x2139, 0xFE0F]"

text \<open>\<^verbatim>\<open>Array.prototype.join\<close> on an array of strings.\<close>

fun join :: "jsstring \<Rightarrow> jsstring list \<Rightarrow> jsstring" where
  "join sep [] = []"
| "join sep [x] = x"
| "join sep (x # y # ys) = x @ sep @ join sep (y # ys)"

text \<open>
  \<^verbatim>\<open>!columns[columns.length - 1]\<close>: the last cell is the empty string, or the row has no
  cell at all (index \<open>-1\<close> reads \<^verbatim>\<open>undefined\<close>).
\<close>

definition last_falsy :: "jsstring list \<Rightarrow> bool" where
  "last_falsy columns = (case columns of [] \<Rightarrow> True | _ \<Rightarrow> last columns = [])"

text \<open>
  The \<^verbatim>\<open>while\<close> loop of \<^verbatim>\<open>markdownTable\<close>. \<^verbatim>\<open>pop\<close> on an empty array does nothing
  (\<open>butlast [] = []\<close>). The loop has no other exit than its condition, so it is a
  partial function: \<open>None\<close> is a loop that never ends.
\<close>

partial_function (option) trim_columns :: "jsstring list list \<Rightarrow> jsstring list list option" where
  "trim_columns rows =
     (if list_all last_falsy rows then trim_columns (map butlast rows) else Some rows)"

declare trim_columns.simps [code]

definition table_line :: "jsstring list \<Rightarrow> jsstring" where
  "table_line columns = u16 ''| '' @ join (u16 '' | '') columns @ u16 '' |''"

definition render_rows :: "jsstring list list \<Rightarrow> jsstring" where
  \<comment> \<open>the part of \<^verbatim>\<open>markdownTable\<close> after the \<^verbatim>\<open>while\<close> loop, where \<open>rows\<close> has a first row:
      \<^verbatim>\<open>markdownTable\<close> has returned for no rows and the loop keeps their number\<close>
  "render_rows rows =
     (let columnLength = length (hd rows);
          hide = (columnLength = 3 \<and>
                  list_all (\<lambda>columns. 2 < length columns \<and> columns ! 2 = u16 ''0 B'') rows);
          columnLength = (if hide then columnLength - 1 else columnLength);
          rows = (if hide then map butlast rows else rows)
      in if columnLength = 0 then []
         else join nl (map table_line
                (take columnLength [u16 ''Filename'', u16 ''Size'', u16 ''Change'', []] #
                 take columnLength [u16 '':---'', u16 '':---:'', u16 '':---:'', u16 '':---:''] #
                 rows)))"

definition markdownTable :: "jsstring list list \<Rightarrow> jsstring option" where
  "markdownTable rows =
     (if length rows = 0 then Some []
      else case trim_columns rows of
             None \<Rightarrow> None
           | Some rows' \<Rightarrow> Some (render_rows rows'))"

text \<open>Some cell of some row is not the empty string.\<close>

definition has_cell :: "jsstring list list \<Rightarrow> bool" where
  "has_cell rows = (\<exists>r \<in> set rows. \<exists>c \<in> set r. c \<noteq> [])"

section \<open>Diff report builder\<close>

text \<open>
  One entry of the list \<^verbatim>\<open>plugin.getDiff\<close> returns. Sizes and deltas are integer-valued
  Numbers, modelled as integers; their sums are exact as long as they stay below \<open>2^53\<close>.
\<close>

record Diff =
  filename :: jsstring
  size' :: int
  delta' :: int

record options =
  showTotal :: bool
  collapseUnchanged :: bool
  omitUnchanged :: bool
  minimumChangeThreshold :: int

text \<open>The variables the \<^verbatim>\<open>for\<close> loop of \<^verbatim>\<open>diffTable\<close> updates.\<close>

record loop_state =
  changedRows :: "jsstring list list"
  unChangedRows :: "jsstring list list"
  totalSize :: int
  totalDelta :: int

definition isUnchanged :: "options \<Rightarrow> Diff \<Rightarrow> bool" where
  "isUnchanged opts file = (\<bar>delta' file\<bar> < minimumChangeThreshold opts)"

definition columns_of :: "(int \<Rightarrow> jsstring) \<Rightarrow> Diff \<Rightarrow> jsstring list" where
  "columns_of pb file =
     (let originalSize = size' file - delta' file
      in [backtick @ filename file @ backtick,
          pb (size' file),
          getDeltaText pb (delta' file) originalSize,
          iconForDifference (delta' file) originalSize])"

definition loop_body :: "(int \<Rightarrow> jsstring) \<Rightarrow> options \<Rightarrow> loop_state \<Rightarrow> Diff \<Rightarrow> loop_state" where
  "loop_body pb opts st file =
     (let st = st\<lparr>totalSize := totalSize st + size' file,
                  totalDelta := totalDelta st + delta' file\<rparr>
      in if isUnchanged opts file \<and> omitUnchanged opts then st
         else if isUnchanged opts file \<and> collapseUnchanged opts
         then st\<lparr>unChangedRows := unChangedRows st @ [columns_of pb file]\<rparr>
         else st\<lparr>changedRows := changedRows st @ [columns_of pb file]\<rparr>)"

definition loop_init :: loop_state where
  "loop_init = \<lparr>changedRows = [], unChangedRows = [], totalSize = 0, totalDelta = 0\<rparr>"

definition run_loop :: "(int \<Rightarrow> jsstring) \<Rightarrow> options \<Rightarrow> Diff list \<Rightarrow> loop_state" where
  "run_loop pb opts files = foldl (loop_body pb opts) loop_init files"

definition details :: "jsstring \<Rightarrow> jsstring" where
  "details outUnchanged =
     nl @ nl @ u16 ''<details><summary>'' @ icon_info @
     u16 '' <strong>View Unchanged</strong></summary>'' @ nl @ nl @
     outUnchanged @ nl @ nl @ u16 ''</details>'' @ nl @ nl"

definition total_size_line :: "(int \<Rightarrow> jsstring) \<Rightarrow> loop_state \<Rightarrow> jsstring" where
  "total_size_line pb st = u16 ''**Total Size:** '' @ pb (totalSize st) @ nl @ nl"

definition size_change_line :: "(int \<Rightarrow> jsstring) \<Rightarrow> loop_state \<Rightarrow> jsstring" where
  "size_change_line pb st =
     (let totalOriginalSize = totalSize st - totalDelta st
      in u16 ''**Size Change:** '' @ getDeltaText pb (totalDelta st) totalOriginalSize @
         u16 '' '' @ iconForDifference (totalDelta st) totalOriginalSize @ nl @ nl)"

definition diffTable :: "(int \<Rightarrow> jsstring) \<Rightarrow> Diff list \<Rightarrow> options \<Rightarrow> jsstring option" where
  "diffTable pb files opts =
     (let st = run_loop pb opts files
      in case markdownTable (changedRows st) of
           None \<Rightarrow> None
         | Some out \<Rightarrow>
             (case (if unChangedRows st \<noteq> []
                    then (case markdownTable (unChangedRows st) of
                            None \<Rightarrow> None
                          | Some outUnchanged \<Rightarrow> Some (out @ details outUnchanged))
                    else Some out) of
                None \<Rightarrow> None
              | Some out \<Rightarrow>
                  Some (if showTotal opts
                        then size_change_line pb st @ (total_size_line pb st @ out)
                        else out)))"

section \<open>Hash-stripping normalizer\<close>

datatype js_error = TypeError | SyntaxError | FetchError | Error jsstring

text \<open>
  The regular-expression engine is built into JavaScript: what \<^verbatim>\<open>new RegExp(regex)\<close> finds
  in a file name is a parameter, \<open>None\<close> when the pattern does not match and otherwise
  the position of the match, the matched text, one entry per capture group (\<open>None\<close> for
  a group that did not take part) and whether the pattern has named groups.
\<close>

record rx_match =
  m_index :: nat
  m_matched :: jsstring
  m_captures :: "jsstring option list"
  m_named :: bool

text \<open>
  The arguments \<^verbatim>\<open>String.prototype.replace\<close> passes to its callback after the matched
  text: the captures, the offset of the match, the whole input string and, for a pattern
  with named groups, the groups object.
\<close>

datatype arg = ArgUndefined | ArgString jsstring | ArgNumber nat | ArgObject

definition callback_args :: "rx_match \<Rightarrow> jsstring \<Rightarrow> arg list" where
  "callback_args m fileName =
     map (\<lambda>c. case c of None \<Rightarrow> ArgUndefined | Some s \<Rightarrow> ArgString s) (m_captures m) @
     [ArgNumber (m_index m), ArgString fileName] @
     (if m_named m then [ArgObject] else [])"

text \<open>
  \<^verbatim>\<open>hash.replace(/./g, '*')\<close>: without the \<^verbatim>\<open>s\<close> flag the dot matches every code unit
  but the four line terminators.
\<close>

definition line_terminator :: "16 word \<Rightarrow> bool" where
  "line_terminator c = (c = 0x0A \<or> c = 0x0D \<or> c = 0x2028 \<or> c = 0x2029)"

definition mask :: "jsstring \<Rightarrow> jsstring" where
  "mask hash = map (\<lambda>c. if line_terminator c then c else 0x2A) hash"

text \<open>
  \<^verbatim>\<open>str.replace(hash, replacement)\<close> with a string pattern: the first occurrence of
  \<open>hash\<close> in \<open>str\<close> is replaced, and a string without an occurrence is returned as it
  is. The replacement is taken literally; JavaScript expands \<^verbatim>\<open>$\<close> patterns in it, and a
  mask holds no \<^verbatim>\<open>$\<close>.
\<close>

fun string_replace :: "jsstring \<Rightarrow> jsstring \<Rightarrow> jsstring \<Rightarrow> jsstring" where
  "string_replace hash replacement [] = (if hash = [] then replacement else [])"
| "string_replace hash replacement (c # cs) =
     (if take (length hash) (c # cs) = hash then replacement @ drop (length hash) (c # cs)
      else c # string_replace hash replacement cs)"

text \<open>
  The \<^verbatim>\<open>for\<close> loop of the callback. \<^verbatim>\<open>element || ''\<close> turns the number 0 into the empty
  string; any other number and an object stay as they are, and \<^verbatim>\<open>hash.replace\<close> is then
  not a function.
\<close>

fun mask_hashes :: "arg list \<Rightarrow> jsstring \<Rightarrow> js_error + jsstring" where
  "mask_hashes [] str = Inr str"
| "mask_hashes (ArgString hash # hashes) str =
     mask_hashes hashes (string_replace hash (mask hash) str)"
| "mask_hashes (ArgUndefined # hashes) str = mask_hashes hashes (string_replace [] (mask []) str)"
| "mask_hashes (ArgNumber n # hashes) str =
     (if n = 0 then mask_hashes hashes (string_replace [] (mask []) str) else Inl TypeError)"
| "mask_hashes (ArgObject # hashes) str = Inl TypeError"

definition callback :: "jsstring \<Rightarrow> arg list \<Rightarrow> js_error + jsstring" where
  "callback str args =
     (let hashes = filter (\<lambda>c. c \<noteq> ArgUndefined) (take (length args - 2) args)
      in if hashes \<noteq> [] then mask_hashes hashes str else Inr [])"

text \<open>The values of the capture groups that took part in the match, in group order.\<close>

definition participating :: "jsstring option list \<Rightarrow> jsstring list" where
  "participating captures = map the (filter (\<lambda>c. c \<noteq> None) captures)"

definition replace_match :: "rx_match option \<Rightarrow> jsstring \<Rightarrow> js_error + jsstring" where
  "replace_match found fileName =
     (case found of
        None \<Rightarrow> Inr fileName
      | Some m \<Rightarrow>
          (case callback (m_matched m) (callback_args m fileName) of
             Inl e \<Rightarrow> Inl e
           | Inr r \<Rightarrow>
               Inr (take (m_index m) fileName @ r @
                    drop (m_index m + length (m_matched m)) fileName)))"

definition stripHash ::
  "(jsstring \<Rightarrow> jsstring \<Rightarrow> rx_match option) \<Rightarrow> jsstring option \<Rightarrow>
     (jsstring \<Rightarrow> js_error + jsstring) option" where
  "stripHash exec regex =
     (case regex of
        None \<Rightarrow> None
      | Some r \<Rightarrow>
          if r = [] then None
          else Some (\<lambda>fileName. replace_match (exec r fileName) fileName))"

text \<open>The pattern \<^verbatim>\<open>index.mjs\<close> passes to \<^verbatim>\<open>stripHash\<close>: \<^verbatim>\<open>\.(\w{8})\.js$\<close>.\<close>

definition repo_pattern :: jsstring where
  "repo_pattern = [0x5C] @ u16 ''.('' @ [0x5C] @ u16 ''w{8})'' @ [0x5C] @ u16 ''.js$''"

text \<open>
  The normalizer as the specification words it: every non-empty captured value is
  replaced, where it was captured, by as many \<^verbatim>\<open>*\<close>, but for the last two capture groups
  of the pattern. A capture is given with the position where it starts in the matched
  text.
\<close>

fun spec_mask_at :: "(nat \<times> jsstring) option list \<Rightarrow> jsstring \<Rightarrow> jsstring" where
  "spec_mask_at [] str = str"
| "spec_mask_at (None # cs) str = spec_mask_at cs str"
| "spec_mask_at (Some (i, h) # cs) str =
     spec_mask_at cs (take i str @ replicate (length h) 0x2A @ drop (i + length h) str)"

definition spec_normalize ::
  "(nat \<times> nat \<times> (nat \<times> jsstring) option list) option \<Rightarrow> jsstring \<Rightarrow> jsstring" where
  "spec_normalize found fileName =
     (case found of
        None \<Rightarrow> fileName
      | Some (idx, len, caps) \<Rightarrow>
          take idx fileName @
          spec_mask_at (take (length caps - 2) caps) (take len (drop idx fileName)) @
          drop (idx + len) fileName)"

section \<open>Stored baseline\<close>

datatype jsval =
    Undefined | Null | Boolean bool | Number int | String jsstring
  | Object "(jsstring \<times> jsval) list"

definition truthy :: "jsval \<Rightarrow> bool" where
  "truthy v =
     (case v of Undefined \<Rightarrow> False | Null \<Rightarrow> False | Boolean b \<Rightarrow> b | Number n \<Rightarrow> n \<noteq> 0
      | String s \<Rightarrow> s \<noteq> [] | Object _ \<Rightarrow> True)"

text \<open>
  Reading a property: a \<^verbatim>\<open>TypeError\<close> on \<^verbatim>\<open>undefined\<close> and \<^verbatim>\<open>null\<close>, the stored value or
  \<^verbatim>\<open>undefined\<close> on an object (which lists each of its keys once). Booleans, numbers and strings have none of the properties
  read here (\<^verbatim>\<open>files\<close>, \<^verbatim>\<open>bundle-stats.json\<close>, \<^verbatim>\<open>content\<close>, \<^verbatim>\<open>bundle\<close>).
\<close>

definition get_prop :: "jsval \<Rightarrow> jsstring \<Rightarrow> js_error + jsval" where
  "get_prop v k =
     (case v of
        Undefined \<Rightarrow> Inl TypeError
      | Null \<Rightarrow> Inl TypeError
      | Object kvs \<Rightarrow> Inr (case map_of kvs k of None \<Rightarrow> Undefined | Some x \<Rightarrow> x)
      | _ \<Rightarrow> Inr Undefined)"

definition to_string :: "jsval \<Rightarrow> jsstring" where
  "to_string v =
     (case v of Undefined \<Rightarrow> u16 ''undefined'' | Null \<Rightarrow> u16 ''null''
      | Boolean b \<Rightarrow> (if b then u16 ''true'' else u16 ''false'')
      | Number n \<Rightarrow> number_to_string n | String s \<Rightarrow> s | Object _ \<Rightarrow> u16 ''[object Object]'')"

definition GIST_FILE_NAME :: jsstring where
  "GIST_FILE_NAME = u16 ''bundle-stats.json''"

text \<open>
  What \<^verbatim>\<open>fetch\<close> gives: a rejected promise, or a response with its \<^verbatim>\<open>ok\<close> flag, its
  status text and the value \<^verbatim>\<open>response.json()\<close> resolves to (\<open>None\<close> when the body is
  not JSON and the call rejects).
\<close>

record response =
  ok :: bool
  statusText :: jsstring
  json :: "jsval option"

datatype fetch_result = Rejected | Resolved response

text \<open>
  The \<^verbatim>\<open>try\<close> block of \<^verbatim>\<open>getGistContents\<close>; \<open>Inl\<close> is the error it throws.
  \<^verbatim>\<open>JSON.parse\<close> is the parameter \<open>parse\<close>, \<open>None\<close> where it throws.
\<close>

definition try_block :: "(jsstring \<Rightarrow> jsval option) \<Rightarrow> fetch_result \<Rightarrow> js_error + jsval" where
  "try_block parse fetched =
     (case fetched of
        Rejected \<Rightarrow> Inl FetchError
      | Resolved response \<Rightarrow>
          if \<not> ok response then Inl (Error (u16 ''Failed to fetch gist: '' @ statusText response))
          else (case json response of
            None \<Rightarrow> Inl SyntaxError
          | Some gistData \<Rightarrow>
              (case get_prop gistData (u16 ''files'') of
                 Inl e \<Rightarrow> Inl e
               | Inr files \<Rightarrow>
                   (case get_prop files GIST_FILE_NAME of
                      Inl e \<Rightarrow> Inl e
                    | Inr gistFile \<Rightarrow>
                        (case (if truthy gistFile
                               then (case get_prop gistFile (u16 ''content'') of
                                       Inl e \<Rightarrow> Inl e
                                     | Inr content \<Rightarrow>
                                         (case parse (to_string content) of
                                            None \<Rightarrow> Inl SyntaxError
                                          | Some v \<Rightarrow> Inr v))
                               else Inr (Object [])) of
                           Inl e \<Rightarrow> Inl e
                         | Inr jsonFile \<Rightarrow>
                             (case get_prop jsonFile (u16 ''bundle'') of
                                Inl e \<Rightarrow> Inl e
                              | Inr bundle \<Rightarrow>
                                  if truthy bundle then Inr jsonFile
                                  else Inr (Object [(u16 ''bundle'', jsonFile)])))))))"

text \<open>
  \<^verbatim>\<open>getGistContents\<close>: the errors written with \<^verbatim>\<open>console.error\<close> and the value returned.
  The \<^verbatim>\<open>catch\<close> block has no \<^verbatim>\<open>return\<close>: after an error the function returns
  \<^verbatim>\<open>undefined\<close>.
\<close>

definition getGistContents ::
  "(jsstring \<Rightarrow> jsval option) \<Rightarrow> fetch_result \<Rightarrow> js_error list \<times> jsval" where
  "getGistContents parse fetched =
     (case try_block parse fetched of
        Inl error \<Rightarrow> ([error], Undefined)
      | Inr v \<Rightarrow> ([], v))"

text \<open>
  \<^verbatim>\<open>compare\<close> up to the report it prints. \<^verbatim>\<open>plugin.getDiff\<close> belongs to
  \<^verbatim>\<open>size-plugin-core\<close> and is the parameter \<open>getDiff\<close>; \<open>sizes\<close> is the current snapshot.
  \<open>Inl\<close> is an error \<^verbatim>\<open>compare\<close> throws, in which case nothing is printed.
\<close>

definition previous_bundle :: "jsval \<Rightarrow> js_error + jsval" where
  \<comment> \<open>\<^verbatim>\<open>prev.bundle ?? {}\<close>\<close>
  "previous_bundle prev =
     (case get_prop prev (u16 ''bundle'') of
        Inl e \<Rightarrow> Inl e
      | Inr b \<Rightarrow> Inr (if b = Undefined \<or> b = Null then Object [] else b))"

definition compare ::
  "(int \<Rightarrow> jsstring) \<Rightarrow> (jsstring \<Rightarrow> jsval option) \<Rightarrow> (jsval \<Rightarrow> 's \<Rightarrow> Diff list) \<Rightarrow>
     fetch_result \<Rightarrow> 's \<Rightarrow> int \<Rightarrow> (js_error + jsstring) option" where
  "compare pb parse getDiff fetched sizes threshold =
     (let prev = snd (getGistContents parse fetched)
      in case previous_bundle prev of
           Inl e \<Rightarrow> Some (Inl e)
         | Inr bundle \<Rightarrow>
             map_option Inr
               (diffTable pb (getDiff bundle sizes)
                  \<lparr>showTotal = True, collapseUnchanged = True, omitUnchanged = False,
                   minimumChangeThreshold = threshold\<rparr>))"

text \<open>
  On sizes below 1000 in magnitude \<^verbatim>\<open>pretty-bytes\<close> prints the integer followed by
  \<^verbatim>\<open> B\<close>. \<open>small_bytes\<close> is that formatter; it stands for \<open>pb\<close> at concrete inputs
  whose sizes stay in this range.
\<close>

definition small_bytes :: "int \<Rightarrow> jsstring" where
  "small_bytes n = number_to_string n @ u16 '' B''"

text \<open>
  The rounding the specification names: to the nearest integer, a tie going away from
  zero. It is the specification's reading, to be compared with \<open>Math_round\<close>.
\<close>

definition round_half_away_from_zero :: "rat \<Rightarrow> int" where
  "round_half_away_from_zero x = (if 0 \<le> x then \<lfloor>x + 1 / 2\<rfloor> else - \<lfloor>- x + 1 / 2\<rfloor>)"

section \<open>Properties of the delta classifier\<close>

subsection \<open>The double-precision model\<close>

lemma pow2_powi: "pow2 e = 2 powi e"
  by (simp add: pow2_def power_int_def inverse_eq_divide power_one_over)

lemma pow2_pos: "0 < pow2 e"
  by (simp add: pow2_def)

lemma pow2_diff: "pow2 (a - b) = pow2 a / pow2 b"
  by (simp add: pow2_powi power_int_diff)

lemma bitlength_bounds:
  "0 < n \<Longrightarrow> 0 < bitlength n \<and> 2 ^ nat (bitlength n - 1) \<le> n \<and> n < 2 ^ nat (bitlength n)"
proof (induction n rule: bitlength.induct)
  case (1 n)
  show ?case
  proof (cases "n div 2 \<le> 0")
    case True
    with "1.prems" have "n = 1"
      by linarith
    then show ?thesis
      by (simp add: bitlength.simps [of 1] bitlength.simps [of 0])
  next
    case False
    then have pos: "0 < n div 2"
      by simp
    with "1.IH" "1.prems" have ih: "0 < bitlength (n div 2)"
      "2 ^ nat (bitlength (n div 2) - 1) \<le> n div 2" "n div 2 < 2 ^ nat (bitlength (n div 2))"
      by simp_all
    have b: "bitlength n = bitlength (n div 2) + 1"
      using "1.prems" by (simp add: bitlength.simps [of n])
    have e1: "nat (bitlength n - 1) = Suc (nat (bitlength (n div 2) - 1))"
      using ih(1) b by simp
    have e2: "nat (bitlength n) = Suc (nat (bitlength (n div 2)))"
      using ih(1) b by simp
    have "2 * (n div 2) \<le> n" "n < 2 * (n div 2) + 2"
      by linarith+
    with ih show ?thesis
      unfolding e1 e2 using b by simp
  qed
qed

lemma ilog2_lower:
  assumes "0 < a"
  shows "pow2 (ilog2 a) \<le> a"
proof -
  obtain p q where pq: "quotient_of a = (p, q)"
    by (cases "quotient_of a")
  then have q: "0 < q" and a: "a = of_int p / of_int q"
    using quotient_of_denom_pos quotient_of_div by blast+
  with assms have p: "0 < p"
    by (simp add: zero_less_divide_iff)
  let ?k = "bitlength p - bitlength q"
  show ?thesis
  proof (cases "pow2 ?k \<le> a")
    case True
    then show ?thesis
      by (simp add: ilog2_def pq)
  next
    case False
    have lo: "pow2 (bitlength p - 1) \<le> of_int p"
    proof -
      have "(2::int) ^ nat (bitlength p - 1) \<le> p"
        using bitlength_bounds [OF p] by simp
      then have "(of_int ((2::int) ^ nat (bitlength p - 1)) :: rat) \<le> of_int p"
        by (simp only: of_int_le_iff)
      moreover have "0 \<le> bitlength p - 1"
        using bitlength_bounds [OF p] by simp
      ultimately show ?thesis
        by (simp add: pow2_def)
    qed
    have hi: "of_int q \<le> pow2 (bitlength q)"
    proof -
      have "q < (2::int) ^ nat (bitlength q)"
        using bitlength_bounds [OF q] by simp
      then have "(of_int q :: rat) < of_int ((2::int) ^ nat (bitlength q))"
        by (simp only: of_int_less_iff)
      moreover have "0 \<le> bitlength q"
        using bitlength_bounds [OF q] by simp
      ultimately show ?thesis
        by (simp add: pow2_def)
    qed
    have "pow2 (?k - 1) = pow2 (bitlength p - 1) / pow2 (bitlength q)"
      using pow2_diff [of "bitlength p - 1" "bitlength q"] by (simp add: algebra_simps)
    also have "\<dots> \<le> of_int p / of_int q"
      using lo hi q p pow2_pos [of "bitlength q"] pow2_pos [of "bitlength p - 1"]
      by (intro frac_le) simp_all
    finally have "pow2 (?k - 1) \<le> a"
      unfolding a .
    with False show ?thesis
      by (simp add: ilog2_def pq)
  qed
qed

lemma round_ties_even_error: "\<bar>of_int (round_ties_even x) - x\<bar> \<le> 1 / 2"
proof -
  have "0 \<le> x - of_int \<lfloor>x\<rfloor>" "x - of_int \<lfloor>x\<rfloor> < 1"
    by linarith+
  then show ?thesis
    by (auto simp: round_ties_even_def Let_def)
qed

lemma fl_error: "\<bar>fl x - x\<bar> \<le> \<bar>x\<bar> / 2 ^ 53"
proof (cases "x = 0")
  case True
  then show ?thesis by (simp add: fl_def)
next
  case False
  define a where "a = \<bar>x\<bar>"
  define e where "e = ilog2 a - 52"
  define m where "m = round_ties_even (a / pow2 e)"
  have a: "0 < a"
    using False by (simp add: a_def)
  have fl: "fl x = sgn x * of_int m * pow2 e"
    using False by (simp add: fl_def Let_def a_def e_def m_def)
  have x: "x = sgn x * a"
    by (simp add: a_def mult_sgn_abs)
  have "\<bar>fl x - x\<bar> = \<bar>sgn x * (of_int m * pow2 e - a)\<bar>"
    by (subst (2) x) (simp add: fl algebra_simps)
  also have "\<dots> = \<bar>of_int m * pow2 e - a\<bar>"
    using False by (simp add: abs_mult abs_sgn_eq)
  also have "\<dots> = \<bar>of_int m - a / pow2 e\<bar> * pow2 e"
  proof -
    have "of_int m * pow2 e - a = (of_int m - a / pow2 e) * pow2 e"
      using pow2_pos [of e] by (simp add: field_simps)
    then show ?thesis
      using pow2_pos [of e] by (simp add: abs_mult)
  qed
  also have "\<dots> \<le> 1 / 2 * pow2 e"
    using round_ties_even_error [of "a / pow2 e"] pow2_pos [of e]
    unfolding m_def by (intro mult_right_mono) simp_all
  also have "\<dots> = pow2 (ilog2 a) / 2 ^ 53"
  proof -
    have "pow2 e = pow2 (ilog2 a) / pow2 52"
      unfolding e_def by (rule pow2_diff)
    moreover have "pow2 52 = 2 ^ 52"
      by (simp add: pow2_def)
    ultimately show ?thesis
      by simp
  qed
  also have "\<dots> \<le> a / 2 ^ 53"
    using ilog2_lower [OF a] by (simp add: divide_right_mono)
  finally show ?thesis
    by (simp add: a_def)
qed

lemma raw_percentage_error:
  "\<bar>raw_percentage d orig - 100 * of_int d / of_int orig\<bar> \<le>
     \<bar>100 * of_int d / of_int orig\<bar> / 2 ^ 51"
proof -
  define r :: rat where "r = of_int d / of_int orig"
  define q where "q = fl r"
  define y where "y = fl (q * 100)"
  define eps :: rat where "eps = 1 / 2 ^ 53"
  have y: "raw_percentage d orig = y"
    by (simp add: raw_percentage_def dmul_def ddiv_def y_def q_def r_def)
  have q1: "\<bar>q - r\<bar> \<le> \<bar>r\<bar> * eps"
    using fl_error [of r] by (simp add: q_def eps_def)
  then have q2: "\<bar>q\<bar> \<le> \<bar>r\<bar> * (1 + eps)"
    by (simp add: algebra_simps)
  have "\<bar>y - q * 100\<bar> \<le> \<bar>q * 100\<bar> * eps"
    using fl_error [of "q * 100"] by (simp add: y_def eps_def)
  also have "\<dots> = \<bar>q\<bar> * (100 * eps)"
    by (simp add: abs_mult)
  also have "\<dots> \<le> \<bar>r\<bar> * (1 + eps) * (100 * eps)"
    using q2 by (intro mult_right_mono) (simp_all add: eps_def)
  finally have y1: "\<bar>y - q * 100\<bar> \<le> \<bar>r\<bar> * (1 + eps) * (100 * eps)" .
  have "\<bar>y - 100 * r\<bar> = \<bar>(y - q * 100) + 100 * (q - r)\<bar>"
    by (simp add: algebra_simps)
  also have "\<dots> \<le> \<bar>y - q * 100\<bar> + \<bar>100 * (q - r)\<bar>"
    by (rule abs_triangle_ineq)
  also have "\<dots> = \<bar>y - q * 100\<bar> + 100 * \<bar>q - r\<bar>"
    by (simp only: abs_mult abs_numeral)
  also have "\<dots> \<le> \<bar>r\<bar> * (1 + eps) * (100 * eps) + 100 * (\<bar>r\<bar> * eps)"
    using y1 q1 by (intro add_mono mult_left_mono) simp_all
  also have "\<dots> = \<bar>100 * r\<bar> * (eps * (2 + eps))"
    by (simp add: abs_mult algebra_simps)
  also have "\<dots> \<le> \<bar>100 * r\<bar> * (1 / 2 ^ 51)"
    by (intro mult_left_mono) (simp_all add: eps_def)
  finally show ?thesis
    by (simp add: y r_def)
qed

lemma percentage_error:
  "\<bar>of_int (percentage d orig) - 100 * of_int d / of_int orig :: rat\<bar> \<le>
     1 / 2 + \<bar>100 * of_int d / of_int orig\<bar> / 2 ^ 51"
proof -
  have "\<bar>of_int (percentage d orig) - raw_percentage d orig\<bar> \<le> 1 / 2"
    unfolding percentage_def Math_round_def by linarith
  with raw_percentage_error [of d orig] show ?thesis
    by linarith
qed

subsection \<open>Rounding, text and icon\<close>

lemma Math_round_nearest:
  "of_int (Math_round x) - 1 / 2 \<le> x \<and> x < of_int (Math_round x) + 1 / 2"
  unfolding Math_round_def by linarith

lemma Math_round_vs_half_away:
  "Math_round x =
     (if x < 0 \<and> x - of_int \<lfloor>x\<rfloor> = 1 / 2 then round_half_away_from_zero x + 1
      else round_half_away_from_zero x)"
proof (cases "0 \<le> x")
  case True
  then show ?thesis by (simp add: Math_round_def round_half_away_from_zero_def)
next
  case False
  define f where "f = \<lfloor>x\<rfloor>"
  define r where "r = x - of_int f"
  have r: "0 \<le> r" "r < 1" and x: "x = of_int f + r"
    unfolding r_def f_def by linarith+
  have up: "\<lfloor>x + 1 / 2\<rfloor> = (if r < 1 / 2 then f else f + 1)"
    using r unfolding x by (auto intro!: floor_unique)
  have down: "\<lfloor>- x + 1 / 2\<rfloor> = (if r \<le> 1 / 2 then - f else - f - 1)"
    using r unfolding x by (auto intro!: floor_unique)
  show ?thesis
    using False up down r
    by (auto simp: Math_round_def round_half_away_from_zero_def r_def f_def)
qed

lemma icons_distinct:
  "distinct [icon_new, icon_sos, icon_siren, icon_warning, icon_magnifier,
     icon_trophy, icon_party, icon_clap, icon_check, []]"
  by (simp add: icon_new_def icon_sos_def icon_siren_def icon_warning_def icon_magnifier_def
      icon_trophy_def icon_party_def icon_clap_def icon_check_def)

text \<open>
  C2. The percentage both \<open>getDeltaText\<close> and \<open>iconForDifference\<close> use is the
  floating-point value \<open>delta / originalSize * 100\<close> rounded by \<^verbatim>\<open>Math.round\<close>: to the
  nearest integer, a tie going towards \<open>+\<infinity>\<close>. It is the half-away-from-zero rounding
  of that value except at a negative tie, where it is one greater.
\<close>

theorem percentage_rounds_ties_up:
  "percentage d orig =
     (if raw_percentage d orig < 0 \<and>
         raw_percentage d orig - of_int \<lfloor>raw_percentage d orig\<rfloor> = 1 / 2
      then round_half_away_from_zero (raw_percentage d orig) + 1
      else round_half_away_from_zero (raw_percentage d orig)) \<and>
   of_int (percentage d orig) - 1 / 2 \<le> raw_percentage d orig \<and>
   raw_percentage d orig < of_int (percentage d orig) + 1 / 2"
  unfolding percentage_def
  using Math_round_vs_half_away [of "raw_percentage d orig"]
    Math_round_nearest [of "raw_percentage d orig"]
  by simp

theorem percentage_rounds_ties_up_witness:
  "percentage (- 1) 8 = round_half_away_from_zero (- 25 / 2) + 1 \<and>
   percentage 29 200 = round_half_away_from_zero (raw_percentage 29 200) \<and>
   percentage 29 200 = 14"
proof -
  have a: "raw_percentage (- 1) 8 = - 25 / 2"
    by code_simp
  have b: "raw_percentage 29 200 = 8162774324609023 / 562949953421312"
    by code_simp
  have c: "percentage 29 200 = 14"
    by code_simp
  have f: "\<lfloor>- (25 / 2) :: rat\<rfloor> = - 13"
    by code_simp
  have "percentage (- 1) 8 = round_half_away_from_zero (- 25 / 2) + 1"
    using percentage_rounds_ties_up [of "- 1" 8] unfolding a by (simp add: f)
  moreover have "percentage 29 200 = round_half_away_from_zero (raw_percentage 29 200)"
    using percentage_rounds_ties_up [of 29 200] unfolding b by simp
  ultimately show ?thesis using c by simp
qed

text \<open>
  At \<open>delta = -1\<close>, \<open>originalSize = 8\<close> the floating-point percentage is exactly
  \<open>-12.5\<close>; half-away-from-zero rounding gives \<open>-13\<close>, the code computes \<open>-12\<close>.
\<close>

theorem percentage_half_away_counterexample:
  "raw_percentage (- 1) 8 = - 25 / 2 \<and>
   round_half_away_from_zero (raw_percentage (- 1) 8) = - 13 \<and>
   percentage (- 1) 8 = - 12"
  by code_simp

text \<open>
  C5. \<open>getDeltaText\<close> checks its special cases in this order: a zero delta gives the
  formatted size alone; otherwise an original size of zero appends \<^verbatim>\<open> (new file)\<close>;
  otherwise an original size equal to \<open>- delta\<close> appends \<^verbatim>\<open> (removed)\<close>; otherwise the
  percentage is appended, with a \<^verbatim>\<open>+\<close> when it is positive. The formatted delta has a
  leading \<^verbatim>\<open>+\<close> when the delta is positive. The percentage is
  \<^verbatim>\<open>Math.round((delta / originalSize) * 100)\<close> in double arithmetic, an integer within
  one half (and a rounding error below \<open>2^-51\<close> of the quotient) of
  \<open>100 * delta / originalSize\<close>, printed as JavaScript prints a Number. Sizes are
  integers below \<open>2^53\<close> in magnitude, the integers a Number holds exactly.
\<close>

theorem getDeltaText_cases:
  "(d = 0 \<longrightarrow> getDeltaText pb d orig = pb 0) \<and>
   (d \<noteq> 0 \<and> orig = 0 \<longrightarrow>
      getDeltaText pb d orig = (if 0 < d then u16 ''+'' else []) @ pb d @ u16 '' (new file)'') \<and>
   (d \<noteq> 0 \<and> orig \<noteq> 0 \<and> orig = - d \<longrightarrow>
      getDeltaText pb d orig = (if 0 < d then u16 ''+'' else []) @ pb d @ u16 '' (removed)'') \<and>
   (d \<noteq> 0 \<and> orig \<noteq> 0 \<and> orig \<noteq> - d \<and> \<bar>d\<bar> < 2 ^ 53 \<and> \<bar>orig\<bar> < 2 ^ 53 \<longrightarrow>
      getDeltaText pb d orig =
        (if 0 < d then u16 ''+'' else []) @ pb d @ u16 '' ('' @
        (if 0 < percentage d orig then u16 ''+'' else []) @
        number_to_string (percentage d orig) @ u16 ''%)'' \<and>
      percentage d orig = \<lfloor>fl (fl (of_int d / of_int orig) * 100) + 1 / 2\<rfloor> \<and>
      \<bar>of_int (percentage d orig) - 100 * of_int d / of_int orig :: rat\<bar> \<le>
        1 / 2 + \<bar>100 * of_int d / of_int orig\<bar> / 2 ^ 51)"
  using percentage_error [of d orig]
  by (simp add: getDeltaText_def Let_def percentage_def raw_percentage_def Math_round_def
      dmul_def ddiv_def)

theorem getDeltaText_cases_witness:
  "getDeltaText small_bytes 0 500 = u16 ''0 B'' \<and>
   getDeltaText small_bytes 100 0 = u16 ''+100 B (new file)'' \<and>
   getDeltaText small_bytes (- 200) 200 = u16 ''-200 B (removed)'' \<and>
   getDeltaText small_bytes 100 800 = u16 ''+100 B (+13%)'' \<and>
   getDeltaText small_bytes (- 1) 8 = u16 ''-1 B (-12%)'' \<and>
   getDeltaText small_bytes 29 200 = u16 ''+29 B (+14%)'' \<and>
   getDeltaText small_bytes (- 3) 997 = u16 ''-3 B (0%)'' \<and>
   number_to_string (percentage 4503599627370497 2) = u16 ''225179981368524860''"
proof -
  have p: "percentage 100 800 = 13" "percentage (- 1) 8 = - 12" "percentage 29 200 = 14"
    "percentage (- 3) 997 = 0"
    by code_simp+
  have s: "small_bytes 0 = u16 ''0 B''" "small_bytes 100 = u16 ''100 B''"
    "small_bytes (- 200) = u16 ''-200 B''" "small_bytes (- 1) = u16 ''-1 B''"
    "small_bytes 29 = u16 ''29 B''" "small_bytes (- 3) = u16 ''-3 B''"
    "number_to_string 13 = u16 ''13''" "number_to_string (- 12) = u16 ''-12''"
    "number_to_string 14 = u16 ''14''" "number_to_string 0 = u16 ''0''"
    by code_simp+
  have l: "number_to_string (percentage 4503599627370497 2) = u16 ''225179981368524860''"
    by code_simp
  have "getDeltaText small_bytes 0 500 = u16 ''0 B'' \<and>
      getDeltaText small_bytes 100 0 = u16 ''+100 B (new file)'' \<and>
      getDeltaText small_bytes (- 200) 200 = u16 ''-200 B (removed)'' \<and>
      getDeltaText small_bytes 100 800 = u16 ''+100 B (+13%)'' \<and>
      getDeltaText small_bytes (- 1) 8 = u16 ''-1 B (-12%)'' \<and>
      getDeltaText small_bytes 29 200 = u16 ''+29 B (+14%)'' \<and>
      getDeltaText small_bytes (- 3) 997 = u16 ''-3 B (0%)''"
    using getDeltaText_cases [of 0 small_bytes 500] getDeltaText_cases [of 100 small_bytes 0]
      getDeltaText_cases [of "- 200" small_bytes 200] getDeltaText_cases [of 100 small_bytes 800]
      getDeltaText_cases [of "- 1" small_bytes 8] getDeltaText_cases [of 29 small_bytes 200]
      getDeltaText_cases [of "- 3" small_bytes 997]
    by (simp add: p s u16_def)
  with l show ?thesis
    by simp
qed

lemma getDeltaText_large_percentage:
  "getDeltaText pb 4503599627370497 2 =
     u16 ''+'' @ pb 4503599627370497 @ u16 '' (+225179981368524860%)''"
proof -
  have p: "percentage 4503599627370497 2 = 225179981368524864"
    by code_simp
  have s: "number_to_string 225179981368524864 = u16 ''225179981368524860''"
    by code_simp
  show ?thesis
    by (simp add: getDeltaText_def Let_def p s u16_def)
qed

text \<open>
  C6. \<open>iconForDifference\<close> gives the "new" icon exactly when the original size is zero.
  Otherwise the percentage, \<^verbatim>\<open>Math.round((delta / originalSize) * 100)\<close> in double
  arithmetic and so an integer within one half (and a rounding error below \<open>2^-51\<close> of
  the quotient) of \<open>100 * delta / originalSize\<close>, selects the icon: from 50 up the SOS
  sign, from 20 the siren, from 10 the warning sign, from 5 the magnifier, down to -50 the
  trophy, to -20 the party popper, to -10 the clapping hands, to -5 the check mark, and
  no icon between -4 and 4. The ranges do not overlap: 50 is the SOS sign and 49 the
  siren, -50 the trophy and -49 the party popper.
\<close>

theorem iconForDifference_thresholds:
  "(iconForDifference d orig = icon_new \<longleftrightarrow> orig = 0) \<and>
   (orig \<noteq> 0 \<longrightarrow>
      percentage d orig = \<lfloor>fl (fl (of_int d / of_int orig) * 100) + 1 / 2\<rfloor> \<and>
      \<bar>of_int (percentage d orig) - 100 * of_int d / of_int orig :: rat\<bar> \<le>
        1 / 2 + \<bar>100 * of_int d / of_int orig\<bar> / 2 ^ 51 \<and>
      (iconForDifference d orig = icon_sos \<longleftrightarrow> 50 \<le> percentage d orig) \<and>
      (iconForDifference d orig = icon_siren \<longleftrightarrow> 20 \<le> percentage d orig \<and> percentage d orig < 50) \<and>
      (iconForDifference d orig = icon_warning \<longleftrightarrow> 10 \<le> percentage d orig \<and> percentage d orig < 20) \<and>
      (iconForDifference d orig = icon_magnifier \<longleftrightarrow> 5 \<le> percentage d orig \<and> percentage d orig < 10) \<and>
      (iconForDifference d orig = icon_trophy \<longleftrightarrow> percentage d orig \<le> - 50) \<and>
      (iconForDifference d orig = icon_party \<longleftrightarrow> - 50 < percentage d orig \<and> percentage d orig \<le> - 20) \<and>
      (iconForDifference d orig = icon_clap \<longleftrightarrow> - 20 < percentage d orig \<and> percentage d orig \<le> - 10) \<and>
      (iconForDifference d orig = icon_check \<longleftrightarrow> - 10 < percentage d orig \<and> percentage d orig \<le> - 5) \<and>
      (iconForDifference d orig = [] \<longleftrightarrow> - 5 < percentage d orig \<and> percentage d orig < 5))"
proof -
  have "percentage d orig = \<lfloor>fl (fl (of_int d / of_int orig) * 100) + 1 / 2\<rfloor>"
    by (simp add: percentage_def raw_percentage_def Math_round_def dmul_def ddiv_def)
  then show ?thesis
    using icons_distinct percentage_error [of d orig]
    by (auto simp: iconForDifference_def Let_def)
qed

theorem iconForDifference_thresholds_witness:
  "iconForDifference 7 0 = icon_new \<and>
   percentage 50 100 = 50 \<and> iconForDifference 50 100 = icon_sos \<and>
   percentage 49 100 = 49 \<and> iconForDifference 49 100 = icon_siren \<and>
   percentage (- 50) 100 = - 50 \<and> iconForDifference (- 50) 100 = icon_trophy \<and>
   percentage (- 49) 100 = - 49 \<and> iconForDifference (- 49) 100 = icon_party \<and>
   percentage 50 1000 = 5 \<and> iconForDifference 50 1000 = icon_magnifier \<and>
   percentage 29 200 = 14 \<and> iconForDifference 29 200 = icon_warning \<and>
   percentage 1 3 = 33 \<and> iconForDifference 1 3 = icon_siren \<and>
   percentage 900 7 = 12857 \<and> iconForDifference 900 7 = icon_sos \<and>
   percentage (- 1) 8 = - 12 \<and> iconForDifference (- 1) 8 = icon_clap \<and>
   percentage (- 9) 200 = - 4 \<and> iconForDifference (- 9) 200 = [] \<and>
   percentage (- 11) 200 = - 5 \<and> iconForDifference (- 11) 200 = icon_check \<and>
   percentage 4 100 = 4 \<and> iconForDifference 4 100 = []"
proof -
  have p: "percentage 50 100 = 50" "percentage 49 100 = 49" "percentage (- 50) 100 = - 50"
    "percentage (- 49) 100 = - 49" "percentage 50 1000 = 5" "percentage 29 200 = 14"
    "percentage 1 3 = 33" "percentage 900 7 = 12857" "percentage (- 1) 8 = - 12"
    "percentage (- 9) 200 = - 4" "percentage (- 11) 200 = - 5" "percentage 4 100 = 4"
    by code_simp+
  have a: "iconForDifference 7 0 = icon_new"
    using iconForDifference_thresholds [of 7 0] by simp
  have b: "iconForDifference 50 100 = icon_sos" "iconForDifference 49 100 = icon_siren"
    "iconForDifference (- 50) 100 = icon_trophy" "iconForDifference (- 49) 100 = icon_party"
    using iconForDifference_thresholds [of 50 100] iconForDifference_thresholds [of 49 100]
      iconForDifference_thresholds [of "- 50" 100] iconForDifference_thresholds [of "- 49" 100]
    by (simp_all add: p)
  have c: "iconForDifference 50 1000 = icon_magnifier" "iconForDifference 29 200 = icon_warning"
    "iconForDifference 1 3 = icon_siren" "iconForDifference 900 7 = icon_sos"
    using iconForDifference_thresholds [of 50 1000] iconForDifference_thresholds [of 29 200]
      iconForDifference_thresholds [of 1 3] iconForDifference_thresholds [of 900 7]
    by (simp_all add: p)
  have e: "iconForDifference (- 1) 8 = icon_clap" "iconForDifference (- 9) 200 = []"
    "iconForDifference (- 11) 200 = icon_check" "iconForDifference 4 100 = []"
    using iconForDifference_thresholds [of "- 1" 8] iconForDifference_thresholds [of "- 9" 200]
      iconForDifference_thresholds [of "- 11" 200] iconForDifference_thresholds [of 4 100]
    by (simp_all add: p)
  show ?thesis
    using a b c e by (simp add: p)
qed

section \<open>Properties of the table renderer\<close>

lemma has_cell_butlast:
  assumes "has_cell (map butlast rows)"
  shows "has_cell rows"
  using assms unfolding has_cell_def by (auto dest: in_set_butlastD)

lemma trim_columns_returns_aux:
  "r \<in> set rows \<Longrightarrow> c \<in> set r \<Longrightarrow> c \<noteq> [] \<Longrightarrow> length r = n \<Longrightarrow>
     \<exists>rows'. trim_columns rows = Some rows' \<and> length rows' = length rows \<and> has_cell rows'"
proof (induction n arbitrary: rows r)
  case 0
  then show ?case by simp
next
  case (Suc n)
  show ?case
  proof (cases "list_all last_falsy rows")
    case False
    moreover have "has_cell rows"
      using Suc.prems unfolding has_cell_def by blast
    ultimately show ?thesis
      by (subst trim_columns.simps) simp
  next
    case True
    with Suc.prems have "last_falsy r"
      by (simp add: list_all_iff)
    moreover have "r \<noteq> []"
      using Suc.prems by auto
    ultimately have "last r = []"
      by (cases r) (simp_all add: last_falsy_def)
    with Suc.prems \<open>r \<noteq> []\<close> have "c \<in> set (butlast r)"
      by (metis append_butlast_last_id insert_iff list.set(2) rotate1.simps(2) set_rotate1)
    moreover have "butlast r \<in> set (map butlast rows)"
      using Suc.prems by simp
    moreover have "length (butlast r) = n"
      using Suc.prems by simp
    ultimately obtain rows' where
      "trim_columns (map butlast rows) = Some rows'" "length rows' = length rows" "has_cell rows'"
      using Suc.IH [of "butlast r" "map butlast rows"] Suc.prems by auto
    with True show ?thesis
      by (subst trim_columns.simps) simp
  qed
qed

lemma trim_columns_returns:
  assumes "has_cell rows"
  shows "\<exists>rows'. trim_columns rows = Some rows' \<and> length rows' = length rows \<and> has_cell rows'"
  using assms trim_columns_returns_aux unfolding has_cell_def by blast

lemma trim_columns_Some_has_cell:
  assumes "trim_columns rows = Some rows'"
  shows "has_cell rows"
  using assms
proof (induction rows rows' rule: trim_columns.raw_induct [rotated 1, consumes 1, case_names step])
  case (step trim rows rows')
  show ?case
  proof (cases "list_all last_falsy rows")
    case True
    with step have "has_cell (map butlast rows)"
      by simp
    then show ?thesis
      by (rule has_cell_butlast)
  next
    case False
    then obtain r where r: "r \<in> set rows" "\<not> last_falsy r"
      by (auto simp: list_all_iff)
    have "r \<noteq> [] \<and> last r \<noteq> []"
      using r(2) by (auto simp: last_falsy_def split: list.splits)
    then have "last r \<in> set r" "last r \<noteq> []"
      by simp_all
    with r show ?thesis
      unfolding has_cell_def by blast
  qed
qed

lemma trim_columns_length:
  assumes "trim_columns rows = Some rows'"
  shows "length rows' = length rows"
  using assms trim_columns_returns [OF trim_columns_Some_has_cell [OF assms]] by auto

lemma trim_columns_None_iff:
  "trim_columns rows = None \<longleftrightarrow> \<not> has_cell rows"
  using trim_columns_returns [of rows] trim_columns_Some_has_cell [of rows] by fastforce

lemma markdownTable_None_iff:
  "markdownTable rows = None \<longleftrightarrow> rows \<noteq> [] \<and> \<not> has_cell rows"
  using trim_columns_None_iff [of rows]
  by (auto simp: markdownTable_def split: option.splits)

lemma markdownTable_returns:
  assumes "rows = [] \<or> has_cell rows"
  shows "\<exists>out. markdownTable rows = Some out"
  using assms markdownTable_None_iff [of rows] by (cases "markdownTable rows") auto

section \<open>Properties of the report builder\<close>

lemma loop_body_apply:
  "loop_body pb opts st f =
     (if isUnchanged opts f \<and> omitUnchanged opts
      then st\<lparr>totalSize := totalSize st + size' f, totalDelta := totalDelta st + delta' f\<rparr>
      else if isUnchanged opts f \<and> collapseUnchanged opts
      then st\<lparr>totalSize := totalSize st + size' f, totalDelta := totalDelta st + delta' f,
              unChangedRows := unChangedRows st @ [columns_of pb f]\<rparr>
      else st\<lparr>totalSize := totalSize st + size' f, totalDelta := totalDelta st + delta' f,
              changedRows := changedRows st @ [columns_of pb f]\<rparr>)"
  by (simp add: loop_body_def Let_def)

lemma foldl_loop_body:
  "foldl (loop_body pb opts) st files =
     st\<lparr>changedRows := changedRows st @ map (columns_of pb)
            (filter (\<lambda>f. \<not> (isUnchanged opts f \<and> (omitUnchanged opts \<or> collapseUnchanged opts))) files),
        unChangedRows := unChangedRows st @ map (columns_of pb)
            (filter (\<lambda>f. isUnchanged opts f \<and> \<not> omitUnchanged opts \<and> collapseUnchanged opts) files),
        totalSize := totalSize st + sum_list (map size' files),
        totalDelta := totalDelta st + sum_list (map delta' files)\<rparr>"
proof (induction files arbitrary: st)
  case Nil
  then show ?case by simp
next
  case (Cons f files)
  show ?case
    unfolding foldl_Cons Cons.IH by (simp add: loop_body_apply)
qed

lemma run_loop_eq:
  "run_loop pb opts files =
     \<lparr>changedRows = map (columns_of pb)
        (filter (\<lambda>f. \<not> (isUnchanged opts f \<and> (omitUnchanged opts \<or> collapseUnchanged opts))) files),
      unChangedRows = map (columns_of pb)
        (filter (\<lambda>f. isUnchanged opts f \<and> \<not> omitUnchanged opts \<and> collapseUnchanged opts) files),
      totalSize = sum_list (map size' files),
      totalDelta = sum_list (map delta' files)\<rparr>"
  unfolding run_loop_def foldl_loop_body by (simp add: loop_init_def)

lemma run_loop_showTotal:
  "run_loop pb (opts\<lparr>showTotal := b\<rparr>) files = run_loop pb opts files"
  by (simp add: run_loop_eq isUnchanged_def)

lemma columns_of_has_cell:
  "fs = [] \<or> has_cell (map (columns_of pb) fs)"
  by (cases fs) (simp_all add: has_cell_def columns_of_def backtick_def Let_def)

lemma markdownTable_columns_of:
  "\<exists>out. markdownTable (map (columns_of pb) fs) = Some out"
  using columns_of_has_cell [of fs pb] markdownTable_returns [of "map (columns_of pb) fs"] by auto

lemma diffTable_eq:
  assumes "markdownTable (changedRows (run_loop pb opts files)) = Some main"
    and "unChangedRows (run_loop pb opts files) \<noteq> [] \<Longrightarrow>
         markdownTable (unChangedRows (run_loop pb opts files)) = Some un"
  shows "diffTable pb files opts =
     Some ((if showTotal opts
            then size_change_line pb (run_loop pb opts files) @
                 total_size_line pb (run_loop pb opts files)
            else []) @
           main @ (if unChangedRows (run_loop pb opts files) \<noteq> [] then details un else []))"
  using assms by (simp add: diffTable_def Let_def)

lemma diffTable_returns:
  "\<exists>out. diffTable pb files opts = Some out"
proof -
  obtain main where "markdownTable (changedRows (run_loop pb opts files)) = Some main"
    using markdownTable_columns_of by (auto simp: run_loop_eq)
  moreover obtain un where "markdownTable (unChangedRows (run_loop pb opts files)) = Some un"
    using markdownTable_columns_of by (auto simp: run_loop_eq)
  ultimately show ?thesis
    using diffTable_eq by blast
qed




text \<open>
  C7. With \<open>omitUnchanged\<close> set, a file whose absolute delta is below
  \<open>minimumChangeThreshold\<close> gets no row in either group, while the totals are the sums
  over all files, the omitted ones included, and the two total lines are printed from
  these sums.
\<close>

theorem omitUnchanged_skips_rows_keeps_totals:
  assumes "omitUnchanged opts"
  shows "changedRows (run_loop pb opts files) =
           map (columns_of pb) (filter (\<lambda>f. \<not> \<bar>delta' f\<bar> < minimumChangeThreshold opts) files) \<and>
         unChangedRows (run_loop pb opts files) = [] \<and>
         totalSize (run_loop pb opts files) = sum_list (map size' files) \<and>
         totalDelta (run_loop pb opts files) = sum_list (map delta' files) \<and>
         (\<exists>table.
            markdownTable (map (columns_of pb)
              (filter (\<lambda>f. \<not> \<bar>delta' f\<bar> < minimumChangeThreshold opts) files)) = Some table \<and>
            diffTable pb files opts =
              Some (if showTotal opts
                    then size_change_line pb (run_loop pb opts files) @
                         total_size_line pb (run_loop pb opts files) @ table
                    else table))"
proof -
  let ?shown = "filter (\<lambda>f. \<not> \<bar>delta' f\<bar> < minimumChangeThreshold opts) files"
  have rows: "changedRows (run_loop pb opts files) = map (columns_of pb) ?shown"
    "unChangedRows (run_loop pb opts files) = []"
    using assms by (simp_all add: run_loop_eq isUnchanged_def)
  obtain table where table: "markdownTable (map (columns_of pb) ?shown) = Some table"
    using markdownTable_columns_of by blast
  have "diffTable pb files opts =
          Some (if showTotal opts
                then size_change_line pb (run_loop pb opts files) @
                     total_size_line pb (run_loop pb opts files) @ table
                else table)"
    using diffTable_eq [of pb opts files table] table rows by simp
  with rows table show ?thesis
    by (simp add: run_loop_eq)
qed

theorem omitUnchanged_skips_rows_keeps_totals_witness:
  "changedRows (run_loop small_bytes
      \<lparr>showTotal = True, collapseUnchanged = True, omitUnchanged = True, minimumChangeThreshold = 10\<rparr>
      [\<lparr>filename = u16 ''a.js'', size' = 100, delta' = 100\<rparr>,
       \<lparr>filename = u16 ''b.js'', size' = 500, delta' = 3\<rparr>]) =
     [columns_of small_bytes \<lparr>filename = u16 ''a.js'', size' = 100, delta' = 100\<rparr>] \<and>
   unChangedRows (run_loop small_bytes
      \<lparr>showTotal = True, collapseUnchanged = True, omitUnchanged = True, minimumChangeThreshold = 10\<rparr>
      [\<lparr>filename = u16 ''a.js'', size' = 100, delta' = 100\<rparr>,
       \<lparr>filename = u16 ''b.js'', size' = 500, delta' = 3\<rparr>]) = [] \<and>
   totalSize (run_loop small_bytes
      \<lparr>showTotal = True, collapseUnchanged = True, omitUnchanged = True, minimumChangeThreshold = 10\<rparr>
      [\<lparr>filename = u16 ''a.js'', size' = 100, delta' = 100\<rparr>,
       \<lparr>filename = u16 ''b.js'', size' = 500, delta' = 3\<rparr>]) = 600 \<and>
   totalDelta (run_loop small_bytes
      \<lparr>showTotal = True, collapseUnchanged = True, omitUnchanged = True, minimumChangeThreshold = 10\<rparr>
      [\<lparr>filename = u16 ''a.js'', size' = 100, delta' = 100\<rparr>,
       \<lparr>filename = u16 ''b.js'', size' = 500, delta' = 3\<rparr>]) = 103"
  using omitUnchanged_skips_rows_keeps_totals [of
      "\<lparr>showTotal = True, collapseUnchanged = True, omitUnchanged = True, minimumChangeThreshold = 10\<rparr>"
      small_bytes
      "[\<lparr>filename = u16 ''a.js'', size' = 100, delta' = 100\<rparr>,
        \<lparr>filename = u16 ''b.js'', size' = 500, delta' = 3\<rparr>]"]
  by simp


text \<open>
  C8. With \<open>showTotal\<close> set, \<open>diffTable\<close> puts two lines above everything else it
  prints: first the total size change, whose text and icon are those of the delta
  classifier for the total delta and the total original size, then the total size, the
  formatted sum of all sizes. The total size line is prepended first and the size change
  line after it, which is why the size change comes out on top.
\<close>

theorem showTotal_prepends_change_then_size:
  assumes "showTotal opts"
  shows "\<exists>rest.
           diffTable pb files (opts\<lparr>showTotal := False\<rparr>) = Some rest \<and>
           diffTable pb files opts =
             Some (u16 ''**Size Change:** '' @
                   getDeltaText pb (sum_list (map delta' files))
                     (sum_list (map size' files) - sum_list (map delta' files)) @
                   u16 '' '' @
                   iconForDifference (sum_list (map delta' files))
                     (sum_list (map size' files) - sum_list (map delta' files)) @
                   nl @ nl @
                   u16 ''**Total Size:** '' @ pb (sum_list (map size' files)) @ nl @ nl @
                   rest)"
proof -
  let ?st = "run_loop pb opts files"
  obtain main where main: "markdownTable (changedRows ?st) = Some main"
    using markdownTable_columns_of by (auto simp: run_loop_eq)
  obtain un where un: "markdownTable (unChangedRows ?st) = Some un"
    using markdownTable_columns_of by (auto simp: run_loop_eq)
  let ?rest = "main @ (if unChangedRows ?st \<noteq> [] then details un else [])"
  have "diffTable pb files (opts\<lparr>showTotal := False\<rparr>) = Some ?rest"
    using diffTable_eq [of pb "opts\<lparr>showTotal := False\<rparr>" files main un] main un
    by (simp add: run_loop_showTotal)
  moreover have "diffTable pb files opts =
      Some (size_change_line pb ?st @ total_size_line pb ?st @ ?rest)"
    using diffTable_eq [of pb opts files main un] main un assms by simp
  moreover have "totalSize ?st = sum_list (map size' files)"
    "totalDelta ?st = sum_list (map delta' files)"
    by (simp_all add: run_loop_eq)
  ultimately show ?thesis
    by (simp add: size_change_line_def total_size_line_def Let_def)
qed

theorem showTotal_prepends_change_then_size_witness:
  "diffTable small_bytes [\<lparr>filename = u16 ''a.js'', size' = 100, delta' = 100\<rparr>]
     \<lparr>showTotal = True, collapseUnchanged = True, omitUnchanged = False,
      minimumChangeThreshold = 10\<rparr> =
     Some (u16 ''**Size Change:** +100 B (new file) '' @ icon_new @ nl @ nl @
           u16 ''**Total Size:** 100 B'' @ nl @ nl @
           u16 ''| Filename | Size | Change |  |'' @ nl @
           u16 ''| :--- | :---: | :---: | :---: |'' @ nl @
           u16 ''| `a.js` | 100 B | +100 B (new file) | '' @ icon_new @ u16 '' |'')"
proof -
  let ?files = "[\<lparr>filename = u16 ''a.js'', size' = 100, delta' = 100\<rparr>]"
  let ?opts = "\<lparr>showTotal = True, collapseUnchanged = True, omitUnchanged = False,
      minimumChangeThreshold = 10\<rparr>"
  let ?d = "sum_list (map delta' ?files)"
  let ?s = "sum_list (map size' ?files)"
  have "showTotal ?opts"
    by simp
  from showTotal_prepends_change_then_size [OF this, of small_bytes ?files]
  obtain r where
    r: "diffTable small_bytes ?files (?opts\<lparr>showTotal := False\<rparr>) = Some r" and
    t: "diffTable small_bytes ?files ?opts =
          Some (u16 ''**Size Change:** '' @ getDeltaText small_bytes ?d (?s - ?d) @ u16 '' '' @
                iconForDifference ?d (?s - ?d) @ nl @ nl @
                u16 ''**Total Size:** '' @ small_bytes ?s @ nl @ nl @ r)"
    by blast
  have "diffTable small_bytes ?files (?opts\<lparr>showTotal := False\<rparr>) =
     Some (u16 ''| Filename | Size | Change |  |'' @ nl @
           u16 ''| :--- | :---: | :---: | :---: |'' @ nl @
           u16 ''| `a.js` | 100 B | +100 B (new file) | '' @ icon_new @ u16 '' |'')"
    by code_simp
  with r have rest: "r = u16 ''| Filename | Size | Change |  |'' @ nl @
           u16 ''| :--- | :---: | :---: | :---: |'' @ nl @
           u16 ''| `a.js` | 100 B | +100 B (new file) | '' @ icon_new @ u16 '' |''"
    by simp
  have lines: "getDeltaText small_bytes ?d (?s - ?d) = u16 ''+100 B (new file)''"
    "iconForDifference ?d (?s - ?d) = icon_new" "small_bytes ?s = u16 ''100 B''"
    by code_simp+
  show ?thesis
    unfolding t lines rest by (simp add: u16_def)
qed

text \<open>
  For one new file of 100 bytes the first line of the report is the size change and the
  total size comes second; the report does not start with the total size.
\<close>

theorem showTotal_order_counterexample:
  "diffTable small_bytes [\<lparr>filename = u16 ''a.js'', size' = 100, delta' = 100\<rparr>]
     \<lparr>showTotal = True, collapseUnchanged = True, omitUnchanged = False,
      minimumChangeThreshold = 10\<rparr> =
     Some (u16 ''**Size Change:** +100 B (new file) '' @ icon_new @ nl @ nl @
           u16 ''**Total Size:** 100 B'' @ nl @ nl @
           u16 ''| Filename | Size | Change |  |'' @ nl @
           u16 ''| :--- | :---: | :---: | :---: |'' @ nl @
           u16 ''| `a.js` | 100 B | +100 B (new file) | '' @ icon_new @ u16 '' |'') \<and>
   diffTable small_bytes [\<lparr>filename = u16 ''a.js'', size' = 100, delta' = 100\<rparr>]
     \<lparr>showTotal = True, collapseUnchanged = True, omitUnchanged = False,
      minimumChangeThreshold = 10\<rparr> \<noteq>
     Some (u16 ''**Total Size:** 100 B'' @ nl @ nl @
           u16 ''**Size Change:** +100 B (new file) '' @ icon_new @ nl @ nl @
           u16 ''| Filename | Size | Change |  |'' @ nl @
           u16 ''| :--- | :---: | :---: | :---: |'' @ nl @
           u16 ''| `a.js` | 100 B | +100 B (new file) | '' @ icon_new @ u16 '' |'')"
  by code_simp

text \<open>
  C9. With \<open>collapseUnchanged\<close> set and \<open>omitUnchanged\<close> not set, the files whose
  absolute delta is below \<open>minimumChangeThreshold\<close> make up the unchanged group and the
  other files the changed group. Each group is rendered by \<open>markdownTable\<close> on its own;
  a non-empty unchanged group follows the main table inside a \<^verbatim>\<open>details\<close> block whose
  summary reads "View Unchanged". With \<open>showTotal\<close> the two total lines come before the
  main table; nothing follows the block.
\<close>

theorem collapseUnchanged_routes_to_details:
  assumes "collapseUnchanged opts" and "\<not> omitUnchanged opts"
  shows "changedRows (run_loop pb opts files) =
           map (columns_of pb) (filter (\<lambda>f. \<not> \<bar>delta' f\<bar> < minimumChangeThreshold opts) files) \<and>
         unChangedRows (run_loop pb opts files) =
           map (columns_of pb) (filter (\<lambda>f. \<bar>delta' f\<bar> < minimumChangeThreshold opts) files) \<and>
         (\<exists>main un.
            markdownTable (changedRows (run_loop pb opts files)) = Some main \<and>
            markdownTable (unChangedRows (run_loop pb opts files)) = Some un \<and>
            diffTable pb files opts =
              Some ((if showTotal opts
                     then size_change_line pb (run_loop pb opts files) @
                          total_size_line pb (run_loop pb opts files)
                     else []) @
                    main @
                    (if unChangedRows (run_loop pb opts files) \<noteq> []
                     then nl @ nl @ u16 ''<details><summary>'' @ icon_info @
                          u16 '' <strong>View Unchanged</strong></summary>'' @ nl @ nl @
                          un @ nl @ nl @ u16 ''</details>'' @ nl @ nl
                     else [])))"
proof -
  let ?st = "run_loop pb opts files"
  have rows: "changedRows ?st =
      map (columns_of pb) (filter (\<lambda>f. \<not> \<bar>delta' f\<bar> < minimumChangeThreshold opts) files)"
    "unChangedRows ?st =
      map (columns_of pb) (filter (\<lambda>f. \<bar>delta' f\<bar> < minimumChangeThreshold opts) files)"
    using assms by (simp_all add: run_loop_eq isUnchanged_def)
  obtain main where main: "markdownTable (changedRows ?st) = Some main"
    using markdownTable_columns_of unfolding rows by blast
  obtain un where un: "markdownTable (unChangedRows ?st) = Some un"
    using markdownTable_columns_of unfolding rows by blast
  have "diffTable pb files opts =
      Some ((if showTotal opts then size_change_line pb ?st @ total_size_line pb ?st else []) @
            main @ (if unChangedRows ?st \<noteq> [] then details un else []))"
    using diffTable_eq [of pb opts files main un] main un by simp
  then have "diffTable pb files opts =
      Some ((if showTotal opts then size_change_line pb ?st @ total_size_line pb ?st else []) @
            main @
            (if unChangedRows ?st \<noteq> []
             then nl @ nl @ u16 ''<details><summary>'' @ icon_info @
                  u16 '' <strong>View Unchanged</strong></summary>'' @ nl @ nl @
                  un @ nl @ nl @ u16 ''</details>'' @ nl @ nl
             else []))"
    by (simp add: details_def)
  with rows main un show ?thesis
    by blast
qed

theorem collapseUnchanged_routes_to_details_witness:
  "diffTable small_bytes
     [\<lparr>filename = u16 ''a.js'', size' = 330, delta' = 30\<rparr>,
      \<lparr>filename = u16 ''b.js'', size' = 200, delta' = 0\<rparr>]
     \<lparr>showTotal = True, collapseUnchanged = True, omitUnchanged = False,
      minimumChangeThreshold = 10\<rparr> =
     Some (u16 ''**Size Change:** +30 B (+6%) '' @ icon_magnifier @ nl @ nl @
           u16 ''**Total Size:** 530 B'' @ nl @ nl @
           u16 ''| Filename | Size | Change |  |'' @ nl @
           u16 ''| :--- | :---: | :---: | :---: |'' @ nl @
           u16 ''| `a.js` | 330 B | +30 B (+10%) | '' @ icon_warning @ u16 '' |'' @
           nl @ nl @ u16 ''<details><summary>'' @ icon_info @
           u16 '' <strong>View Unchanged</strong></summary>'' @ nl @ nl @
           u16 ''| Filename | Size |'' @ nl @
           u16 ''| :--- | :---: |'' @ nl @
           u16 ''| `b.js` | 200 B |'' @
           nl @ nl @ u16 ''</details>'' @ nl @ nl) \<and>
   diffTable small_bytes
     [\<lparr>filename = u16 ''a.js'', size' = 330, delta' = 30\<rparr>,
      \<lparr>filename = u16 ''b.js'', size' = 200, delta' = 0\<rparr>]
     \<lparr>showTotal = False, collapseUnchanged = True, omitUnchanged = False,
      minimumChangeThreshold = 10\<rparr> =
     Some (u16 ''| Filename | Size | Change |  |'' @ nl @
           u16 ''| :--- | :---: | :---: | :---: |'' @ nl @
           u16 ''| `a.js` | 330 B | +30 B (+10%) | '' @ icon_warning @ u16 '' |'' @
           nl @ nl @ u16 ''<details><summary>'' @ icon_info @
           u16 '' <strong>View Unchanged</strong></summary>'' @ nl @ nl @
           u16 ''| Filename | Size |'' @ nl @
           u16 ''| :--- | :---: |'' @ nl @
           u16 ''| `b.js` | 200 B |'' @
           nl @ nl @ u16 ''</details>'' @ nl @ nl)"
proof -
  let ?files = "[\<lparr>filename = u16 ''a.js'', size' = 330, delta' = 30\<rparr>,
      \<lparr>filename = u16 ''b.js'', size' = 200, delta' = 0\<rparr>]"
  let ?on = "\<lparr>showTotal = True, collapseUnchanged = True, omitUnchanged = False,
      minimumChangeThreshold = 10\<rparr>"
  let ?off = "\<lparr>showTotal = False, collapseUnchanged = True, omitUnchanged = False,
      minimumChangeThreshold = 10\<rparr>"
  have main: "markdownTable (changedRows (run_loop small_bytes ?on ?files)) =
      Some (u16 ''| Filename | Size | Change |  |'' @ nl @
           u16 ''| :--- | :---: | :---: | :---: |'' @ nl @
           u16 ''| `a.js` | 330 B | +30 B (+10%) | '' @ icon_warning @ u16 '' |'')"
    "markdownTable (changedRows (run_loop small_bytes ?off ?files)) =
      Some (u16 ''| Filename | Size | Change |  |'' @ nl @
           u16 ''| :--- | :---: | :---: | :---: |'' @ nl @
           u16 ''| `a.js` | 330 B | +30 B (+10%) | '' @ icon_warning @ u16 '' |'')"
    by code_simp+
  have un: "markdownTable (unChangedRows (run_loop small_bytes ?on ?files)) =
      Some (u16 ''| Filename | Size |'' @ nl @
           u16 ''| :--- | :---: |'' @ nl @
           u16 ''| `b.js` | 200 B |'')"
    "markdownTable (unChangedRows (run_loop small_bytes ?off ?files)) =
      Some (u16 ''| Filename | Size |'' @ nl @
           u16 ''| :--- | :---: |'' @ nl @
           u16 ''| `b.js` | 200 B |'')"
    by code_simp+
  have ne: "unChangedRows (run_loop small_bytes ?on ?files) \<noteq> []"
    "unChangedRows (run_loop small_bytes ?off ?files) \<noteq> []"
    by code_simp+
  have lines: "size_change_line small_bytes (run_loop small_bytes ?on ?files) =
      u16 ''**Size Change:** +30 B (+6%) '' @ icon_magnifier @ nl @ nl"
    "total_size_line small_bytes (run_loop small_bytes ?on ?files) =
      u16 ''**Total Size:** 530 B'' @ nl @ nl"
    by code_simp+
  have c: "collapseUnchanged ?on" "\<not> omitUnchanged ?on" "collapseUnchanged ?off"
    "\<not> omitUnchanged ?off"
    by simp_all
  have "diffTable small_bytes ?files ?on =
     Some (u16 ''**Size Change:** +30 B (+6%) '' @ icon_magnifier @ nl @ nl @
           u16 ''**Total Size:** 530 B'' @ nl @ nl @
           u16 ''| Filename | Size | Change |  |'' @ nl @
           u16 ''| :--- | :---: | :---: | :---: |'' @ nl @
           u16 ''| `a.js` | 330 B | +30 B (+10%) | '' @ icon_warning @ u16 '' |'' @
           nl @ nl @ u16 ''<details><summary>'' @ icon_info @
           u16 '' <strong>View Unchanged</strong></summary>'' @ nl @ nl @
           u16 ''| Filename | Size |'' @ nl @
           u16 ''| :--- | :---: |'' @ nl @
           u16 ''| `b.js` | 200 B |'' @
           nl @ nl @ u16 ''</details>'' @ nl @ nl)"
    using collapseUnchanged_routes_to_details [OF c(1,2), of small_bytes ?files]
    unfolding main un lines using ne by auto
  moreover have "diffTable small_bytes ?files ?off =
     Some (u16 ''| Filename | Size | Change |  |'' @ nl @
           u16 ''| :--- | :---: | :---: | :---: |'' @ nl @
           u16 ''| `a.js` | 330 B | +30 B (+10%) | '' @ icon_warning @ u16 '' |'' @
           nl @ nl @ u16 ''<details><summary>'' @ icon_info @
           u16 '' <strong>View Unchanged</strong></summary>'' @ nl @ nl @
           u16 ''| Filename | Size |'' @ nl @
           u16 ''| :--- | :---: |'' @ nl @
           u16 ''| `b.js` | 200 B |'' @
           nl @ nl @ u16 ''</details>'' @ nl @ nl)"
    using collapseUnchanged_routes_to_details [OF c(3,4), of small_bytes ?files]
    unfolding main un using ne by auto
  ultimately show ?thesis
    by simp
qed

text \<open>
  C10. For no files at all and \<open>showTotal\<close> set, the report is the two total lines and
  nothing else: a size change of zero bytes, marked with the "new" icon because the
  total original size is zero, and a total size of zero bytes. No table and no
  "View Unchanged" block follow.
\<close>

theorem diffTable_no_files:
  assumes "showTotal opts"
  shows "diffTable pb [] opts =
           Some (u16 ''**Size Change:** '' @ pb 0 @ u16 '' '' @ icon_new @ nl @ nl @
                 u16 ''**Total Size:** '' @ pb 0 @ nl @ nl)"
  using assms
  by (simp add: diffTable_def run_loop_def loop_init_def markdownTable_def
      size_change_line_def total_size_line_def getDeltaText_def iconForDifference_def)

theorem diffTable_no_files_witness:
  "diffTable small_bytes []
     \<lparr>showTotal = True, collapseUnchanged = True, omitUnchanged = False,
      minimumChangeThreshold = 10\<rparr> =
     Some (u16 ''**Size Change:** 0 B '' @ icon_new @ nl @ nl @
           u16 ''**Total Size:** 0 B'' @ nl @ nl)"
proof -
  have z: "small_bytes 0 = u16 ''0 B''"
    by code_simp
  have "showTotal \<lparr>showTotal = True, collapseUnchanged = True, omitUnchanged = False,
      minimumChangeThreshold = 10\<rparr>"
    by simp
  from diffTable_no_files [OF this, of small_bytes]
  show ?thesis
    by (simp add: z u16_def)
qed

section \<open>Properties of the normalizer\<close>

lemma length_mask: "length (mask hash) = length hash"
  by (simp add: mask_def)

lemma mask_no_dollar: "0x24 \<notin> set (mask hash)"
  by (auto simp: mask_def line_terminator_def)

lemma mask_replicate:
  assumes "\<forall>c \<in> set hash. \<not> line_terminator c"
  shows "mask hash = replicate (length hash) 0x2A"
  using assms by (induction hash) (simp_all add: mask_def)

lemma string_replace_empty: "string_replace [] [] str = str"
  by (cases str) simp_all

lemma length_string_replace:
  assumes "length replacement = length hash"
  shows "length (string_replace hash replacement str) = length str"
proof (induction str)
  case Nil
  with assms show ?case by auto
next
  case (Cons c cs)
  show ?case
  proof (cases "take (length hash) (c # cs) = hash")
    case True
    then have "length (take (length hash) (c # cs)) = length hash"
      by simp
    then have "length hash \<le> length (c # cs)"
      unfolding length_take by linarith
    with True assms show ?thesis
      by simp
  next
    case False
    with Cons show ?thesis by simp
  qed
qed

lemma mask_hashes_strings:
  "mask_hashes (map ArgString hashes) str =
     Inr (foldl (\<lambda>s hash. string_replace hash (mask hash) s) str hashes)"
  by (induction hashes arbitrary: str) simp_all

lemma length_foldl_mask:
  "length (foldl (\<lambda>s hash. string_replace hash (mask hash) s) str hashes) = length str"
  by (induction hashes arbitrary: str) (simp_all add: length_string_replace length_mask)

lemma filter_captures:
  "filter (\<lambda>c. c \<noteq> ArgUndefined)
     (map (\<lambda>c. case c of None \<Rightarrow> ArgUndefined | Some s \<Rightarrow> ArgString s) captures) =
   map ArgString (participating captures)"
  unfolding participating_def
  by (induction captures) (auto split: option.splits)

lemma mask_hashes_number:
  assumes "n \<noteq> 0"
  shows "mask_hashes (map ArgString hashes @ [ArgNumber n]) str = Inl TypeError"
  using assms by (induction hashes arbitrary: str) simp_all

lemma replace_match_named:
  assumes "m_named m" and "m_index m \<noteq> 0"
  shows "replace_match (Some m) fileName = Inl TypeError"
  using assms
  by (simp add: replace_match_def callback_def callback_args_def filter_captures
      mask_hashes_number)

lemma callback_unnamed:
  assumes "\<not> m_named m"
  shows "callback str (callback_args m fileName) =
     Inr (if participating (m_captures m) = [] then []
          else foldl (\<lambda>s hash. string_replace hash (mask hash) s) str (participating (m_captures m)))"
  using assms
  by (simp add: callback_def callback_args_def filter_captures mask_hashes_strings)

text \<open>
  C3. When the pattern does not match, the normalizer returns the file name unchanged.
  When a pattern without named groups matches, every capture group that took part in
  the match is masked, none is left out: the two trailing callback arguments that
  \<^verbatim>\<open>slice(0, -2)\<close> drops are the offset of the match and the input string, not capture
  groups. Group after group, the first occurrence of the captured value in the matched
  text is replaced by its mask, one \<^verbatim>\<open>*\<close> for each code unit that is not a line
  terminator; the text around the match stays, and so does the length of the name. A
  match in which no group took part is replaced by the empty string.
\<close>

theorem stripHash_masks_every_capture:
  assumes "stripHash exec (Some regex) = Some strip"
  shows "(exec regex fileName = None \<longrightarrow> strip fileName = Inr fileName) \<and>
         (exec regex fileName = Some m \<and> \<not> m_named m \<longrightarrow>
            strip fileName =
              Inr (take (m_index m) fileName @
                   (if participating (m_captures m) = [] then []
                    else foldl (\<lambda>str hash. string_replace hash (mask hash) str) (m_matched m)
                           (participating (m_captures m))) @
                   drop (m_index m + length (m_matched m)) fileName) \<and>
            (participating (m_captures m) \<noteq> [] \<and>
             m_index m + length (m_matched m) \<le> length fileName \<longrightarrow>
               (\<exists>r. strip fileName = Inr r \<and> length r = length fileName))) \<and>
         ((\<forall>c \<in> set hash. \<not> line_terminator c) \<longrightarrow> mask hash = replicate (length hash) 0x2A)"
proof -
  from assms have n: "strip = (\<lambda>fileName. replace_match (exec regex fileName) fileName)"
    by (simp add: stripHash_def split: if_splits)
  have "strip fileName = Inr fileName" if "exec regex fileName = None"
    using that by (simp add: n replace_match_def)
  moreover have "strip fileName =
      Inr (take (m_index m) fileName @
           (if participating (m_captures m) = [] then []
            else foldl (\<lambda>str hash. string_replace hash (mask hash) str) (m_matched m)
                   (participating (m_captures m))) @
           drop (m_index m + length (m_matched m)) fileName)"
    if "exec regex fileName = Some m" "\<not> m_named m"
    using that by (simp add: n replace_match_def callback_unnamed)
  moreover have "\<exists>r. strip fileName = Inr r \<and> length r = length fileName"
    if "exec regex fileName = Some m" "\<not> m_named m" "participating (m_captures m) \<noteq> []"
      "m_index m + length (m_matched m) \<le> length fileName"
    using that by (simp add: n replace_match_def callback_unnamed length_foldl_mask)
  ultimately show ?thesis
    using mask_replicate by blast
qed

theorem stripHash_masks_every_capture_witness:
  "replace_match
     (Some \<lparr>m_index = 3, m_matched = u16 ''.a1b2c3d4.js'',
            m_captures = [Some (u16 ''a1b2c3d4'')], m_named = False\<rparr>)
     (u16 ''app.a1b2c3d4.js'') = Inr (u16 ''app.********.js'') \<and>
   replace_match None (u16 ''style.css'') = Inr (u16 ''style.css'') \<and>
   mask (u16 ''a1b2c3d4'') = u16 ''********''"
proof -
  let ?m = "\<lparr>m_index = 3, m_matched = u16 ''.a1b2c3d4.js'',
            m_captures = [Some (u16 ''a1b2c3d4'')], m_named = False\<rparr>"
  let ?exec = "\<lambda>regex :: jsstring. \<lambda>fileName.
     if fileName = u16 ''app.a1b2c3d4.js'' then Some ?m else None"
  let ?strip = "\<lambda>fileName. replace_match (?exec repo_pattern fileName) fileName"
  have s: "stripHash ?exec (Some repo_pattern) = Some ?strip"
    by (simp add: stripHash_def repo_pattern_def)
  have e: "?exec repo_pattern (u16 ''app.a1b2c3d4.js'') = Some ?m"
    "?exec repo_pattern (u16 ''style.css'') = None"
    by (simp_all add: u16_def)
  have v: "foldl (\<lambda>str hash. string_replace hash (mask hash) str) (u16 ''.a1b2c3d4.js'')
             (participating [Some (u16 ''a1b2c3d4'')]) = u16 ''.********.js''"
    "participating [Some (u16 ''a1b2c3d4'')] \<noteq> []"
    "\<forall>c \<in> set (u16 ''a1b2c3d4''). \<not> line_terminator c"
    "replicate (length (u16 ''a1b2c3d4'')) (0x2A :: 16 word) = u16 ''********''"
    "take 3 (u16 ''app.a1b2c3d4.js'') @ u16 ''.********.js'' @
       drop (3 + length (u16 ''.a1b2c3d4.js'')) (u16 ''app.a1b2c3d4.js'') = u16 ''app.********.js''"
    by code_simp+
  from stripHash_masks_every_capture [OF s, of "u16 ''app.a1b2c3d4.js''" ?m "u16 ''a1b2c3d4''"]
  have "?strip (u16 ''app.a1b2c3d4.js'') = Inr (u16 ''app.********.js'')"
    "mask (u16 ''a1b2c3d4'') = u16 ''********''"
    unfolding e using v by simp_all
  moreover from stripHash_masks_every_capture [OF s, of "u16 ''style.css''"]
  have "?strip (u16 ''style.css'') = Inr (u16 ''style.css'')"
    unfolding e by simp
  ultimately show ?thesis
    unfolding e by simp
qed

text \<open>
  The pattern of the repository, \<^verbatim>\<open>\.(\w{8})\.js$\<close>, has one capture group, the hash. Were
  the trailing capture groups left unmasked, \<^verbatim>\<open>app.a1b2c3d4.js\<close> would stay as it is; the
  code masks the hash. With three capture groups, as in \<^verbatim>\<open>\.(\w{8})\.(chunk)\.(js)$\<close>,
  the code masks all three, the last two included.
\<close>

theorem stripHash_trailing_groups_counterexample:
  "replace_match
     (Some \<lparr>m_index = 3, m_matched = u16 ''.a1b2c3d4.js'',
            m_captures = [Some (u16 ''a1b2c3d4'')], m_named = False\<rparr>)
     (u16 ''app.a1b2c3d4.js'') = Inr (u16 ''app.********.js'') \<and>
   spec_normalize (Some (3, 12, [Some (1, u16 ''a1b2c3d4'')])) (u16 ''app.a1b2c3d4.js'') =
     u16 ''app.a1b2c3d4.js'' \<and>
   replace_match
     (Some \<lparr>m_index = 3, m_matched = u16 ''.a1b2c3d4.chunk.js'',
            m_captures = [Some (u16 ''a1b2c3d4''), Some (u16 ''chunk''), Some (u16 ''js'')],
            m_named = False\<rparr>)
     (u16 ''app.a1b2c3d4.chunk.js'') = Inr (u16 ''app.********.*****.**'') \<and>
   spec_normalize
     (Some (3, 18, [Some (1, u16 ''a1b2c3d4''), Some (10, u16 ''chunk''), Some (16, u16 ''js'')]))
     (u16 ''app.a1b2c3d4.chunk.js'') = u16 ''app.********.chunk.js''"
  by code_simp

section \<open>Properties of the stored baseline\<close>

lemma compare_missing_file:
  assumes "json response = Some (Object [(u16 ''files'', Object [])])" and "ok response"
  shows "getGistContents parse (Resolved response) = ([], Object [(u16 ''bundle'', Object [])])"
    and "compare pb parse getDiff (Resolved response) sizes threshold =
           map_option Inr
             (diffTable pb (getDiff (Object []) sizes)
                \<lparr>showTotal = True, collapseUnchanged = True, omitUnchanged = False,
                 minimumChangeThreshold = threshold\<rparr>)"
  using assms
  by (simp_all add: getGistContents_def compare_def previous_bundle_def try_block_def
      get_prop_def truthy_def)

text \<open>
  C1. A fetch that fails is logged, but the baseline is not treated as absent:
  \<open>getGistContents\<close> returns \<^verbatim>\<open>undefined\<close>, and \<open>compare\<close> then throws a
  \<^verbatim>\<open>TypeError\<close> at \<^verbatim>\<open>prev.bundle\<close> instead of printing a report.
\<close>

theorem failed_fetch_makes_compare_throw:
  assumes "try_block parse fetched = Inl e"
  shows "getGistContents parse fetched = ([e], Undefined) \<and>
         compare pb parse getDiff fetched sizes threshold = Some (Inl TypeError)"
  using assms
  by (simp add: getGistContents_def compare_def previous_bundle_def get_prop_def)

theorem failed_fetch_makes_compare_throw_witness:
  "getGistContents (\<lambda>content. None)
     (Resolved \<lparr>ok = False, statusText = u16 ''Not Found'', json = None\<rparr>) =
     ([Error (u16 ''Failed to fetch gist: Not Found'')], Undefined) \<and>
   compare small_bytes (\<lambda>content. None) (\<lambda>bundle sizes. []) 
     (Resolved \<lparr>ok = False, statusText = u16 ''Not Found'', json = None\<rparr>) () 10 =
     Some (Inl TypeError) \<and>
   compare small_bytes (\<lambda>content. None) (\<lambda>bundle sizes. []) Rejected () 10 =
     Some (Inl TypeError)"
proof -
  have a: "try_block (\<lambda>content. None)
      (Resolved \<lparr>ok = False, statusText = u16 ''Not Found'', json = None\<rparr>) =
      Inl (Error (u16 ''Failed to fetch gist: Not Found''))"
    by (simp add: try_block_def u16_def)
  have b: "try_block (\<lambda>content. None) Rejected = Inl FetchError"
    by (simp add: try_block_def)
  show ?thesis
    using failed_fetch_makes_compare_throw [OF a, of small_bytes "\<lambda>bundle sizes. []" "()" 10]
      failed_fetch_makes_compare_throw [OF b, of small_bytes "\<lambda>bundle sizes. []" "()" 10]
    by simp
qed

end
